theory Spec2Isabelle
  imports Main "HOL-Library.Sublist"
begin

section \<open>JavaScript strings and the string primitives used by App.js\<close>

text \<open>
  A JavaScript string is modelled as a list of 8-bit characters, read as the code units
  U+0000 .. U+00FF (so the model covers every text made of Latin-1 characters).
  The primitives below are the library calls that \<^verbatim>\<open>performDocumentAnalysis\<close>,
  \<^verbatim>\<open>extractRelevantContext\<close> and \<^verbatim>\<open>generateAnswer\<close> make:
  \<^verbatim>\<open>toLowerCase\<close>, \<^verbatim>\<open>trim\<close>, \<^verbatim>\<open>includes\<close>, \<^verbatim>\<open>split\<close>, \<^verbatim>\<open>match\<close>,
  \<^verbatim>\<open>replace\<close>, \<^verbatim>\<open>join\<close> and \<^verbatim>\<open>slice(0, n)\<close> (which is \<^const>\<open>take\<close>).
\<close>

definition isWhiteSpace :: "char \<Rightarrow> bool" where
  \<comment> \<open>the class \<^verbatim>\<open>\s\<close>, which is also what \<^verbatim>\<open>trim\<close> strips: TAB, LF, VT, FF, CR, SP, NBSP\<close>
  "isWhiteSpace c \<longleftrightarrow>
     c \<in> set [CHR 0x09, CHR 0x0A, CHR 0x0B, CHR 0x0C, CHR 0x0D, CHR 0x20, CHR 0xA0]"

definition isTerminator :: "char \<Rightarrow> bool" where
  \<comment> \<open>the class \<^verbatim>\<open>[.!?]\<close>\<close>
  "isTerminator c \<longleftrightarrow> c \<in> set [CHR ''.'', CHR ''!'', CHR ''?'']"

definition isDigit :: "char \<Rightarrow> bool" where
  \<comment> \<open>the class \<^verbatim>\<open>\d\<close>\<close>
  "isDigit c \<longleftrightarrow> 48 \<le> (of_char c :: nat) \<and> (of_char c :: nat) \<le> 57"

definition isLowerAlnum :: "char \<Rightarrow> bool" where
  \<comment> \<open>the class \<^verbatim>\<open>[a-z0-9]\<close>\<close>
  "isLowerAlnum c \<longleftrightarrow>
     (97 \<le> (of_char c :: nat) \<and> (of_char c :: nat) \<le> 122) \<or> isDigit c"

definition lowerChar :: "char \<Rightarrow> char" where
  \<comment> \<open>A-Z, and the Latin-1 capitals U+00C0..U+00DE except the sign U+00D7, move up by 32\<close>
  "lowerChar c =
     (let n = (of_char c :: nat)
      in if (65 \<le> n \<and> n \<le> 90) \<or> (192 \<le> n \<and> n \<le> 214) \<or> (216 \<le> n \<and> n \<le> 222)
         then char_of (n + 32) else c)"

definition toLowerCase :: "string \<Rightarrow> string" where
  "toLowerCase s = map lowerChar s"

definition trim :: "string \<Rightarrow> string" where
  "trim s = rev (dropWhile isWhiteSpace (rev (dropWhile isWhiteSpace s)))"

fun startsWith :: "string \<Rightarrow> string \<Rightarrow> bool" where
  "startsWith s [] = True"
| "startsWith [] (w # ws) = False"
| "startsWith (c # cs) (w # ws) = (c = w \<and> startsWith cs ws)"

fun includes_str :: "string \<Rightarrow> string \<Rightarrow> bool" where
  \<comment> \<open>\<^verbatim>\<open>s.includes(w)\<close>: \<open>w\<close> occurs in \<open>s\<close> as a contiguous substring\<close>
  "includes_str [] w = startsWith [] w"
| "includes_str (c # cs) w = (startsWith (c # cs) w \<or> includes_str cs w)"

fun join :: "string \<Rightarrow> string list \<Rightarrow> string" where
  "join sep [] = []"
| "join sep [x] = x"
| "join sep (x # y # ys) = x @ sep @ join sep (y # ys)"

subsection \<open>Splitting\<close>

text \<open>
  A separator pattern is given by its matcher: the length of the match that starts at the
  head of the remaining input, 0 when there is none. None of the patterns of App.js
  matches the empty string.
\<close>

definition classPlus :: "(char \<Rightarrow> bool) \<Rightarrow> string \<Rightarrow> nat" where
  \<comment> \<open>\<^verbatim>\<open>/[...]+/\<close>: the longest run of characters of the class\<close>
  "classPlus p s = length (takeWhile p s)"

definition newlines2 :: "string \<Rightarrow> nat" where
  \<comment> \<open>\<^verbatim>\<open>/\n\n+/\<close>: a run of at least two line feeds\<close>
  "newlines2 s = (let k = length (takeWhile (\<lambda>c. c = CHR 0x0A) s) in if 2 \<le> k then k else 0)"

definition literalDot :: "string \<Rightarrow> nat" where
  \<comment> \<open>the string separator \<^verbatim>\<open>'.'\<close>\<close>
  "literalDot s = (case s of [] \<Rightarrow> 0 | c # _ \<Rightarrow> if c = CHR ''.'' then 1 else 0)"

text \<open>
  \<^verbatim>\<open>String.prototype.split\<close>: scan for the next match; the text before it is a piece,
  the search resumes after it, and what is left at the end is the last piece (so the
  empty string splits into one empty piece). \<open>acc\<close> holds the current piece, reversed.
\<close>

function split_at :: "(string \<Rightarrow> nat) \<Rightarrow> string \<Rightarrow> string \<Rightarrow> string list" where
  "split_at m acc [] = [rev acc]"
| "split_at m acc (c # cs) =
     (if m (c # cs) = 0 then split_at m (c # acc) cs
      else rev acc # split_at m [] (drop (m (c # cs)) (c # cs)))"
  by pat_completeness auto
termination
  by (relation "measure (\<lambda>(m, acc, s). length s)") auto

definition split :: "(string \<Rightarrow> nat) \<Rightarrow> string \<Rightarrow> string list" where
  "split m s = split_at m [] s"

function match_digits :: "string \<Rightarrow> string list" where
  \<comment> \<open>every maximal run of digits, left to right\<close>
  "match_digits [] = []"
| "match_digits (c # cs) =
     (if isDigit c then takeWhile isDigit (c # cs) # match_digits (dropWhile isDigit cs)
      else match_digits cs)"
  by pat_completeness auto
termination
  by (relation "measure length") (auto simp: less_Suc_eq_le length_dropWhile_le)

definition match_numbers :: "string \<Rightarrow> string list option" where
  \<comment> \<open>\<^verbatim>\<open>context.match(/\d+/g)\<close>: \<open>null\<close> when there is no match\<close>
  "match_numbers s = (case match_digits s of [] \<Rightarrow> None | n # ns \<Rightarrow> Some (n # ns))"

definition sentences_of :: "string \<Rightarrow> string list" where
  \<comment> \<open>\<^verbatim>\<open>s.split(/[.!?]+/).filter(s => s.trim().length > 0)\<close>\<close>
  "sentences_of s = filter (\<lambda>f. 0 < length (trim f)) (split (classPlus isTerminator) s)"

definition words_of :: "string \<Rightarrow> string list" where
  \<comment> \<open>\<^verbatim>\<open>text.split(/\s+/).filter(w => w.length > 0)\<close>\<close>
  "words_of s = filter (\<lambda>w. 0 < length w) (split (classPlus isWhiteSpace) s)"

definition paragraphs_of :: "string \<Rightarrow> string list" where
  \<comment> \<open>\<^verbatim>\<open>text.split(/\n\n+/).filter(p => p.trim().length > 0)\<close>\<close>
  "paragraphs_of s = filter (\<lambda>p. 0 < length (trim p)) (split newlines2 s)"


section \<open>Arrays: sorting\<close>

text \<open>
  \<^verbatim>\<open>Array.prototype.sort(cmp)\<close> is a stable sort (ECMAScript 2019 and later): an element
  goes in front of the first element it does not compare greater than, and the elements
  are inserted from the last to the first, so equal elements keep their order.
\<close>

fun insert_by :: "('a \<Rightarrow> 'a \<Rightarrow> int) \<Rightarrow> 'a \<Rightarrow> 'a list \<Rightarrow> 'a list" where
  "insert_by cmp x [] = [x]"
| "insert_by cmp x (y # ys) = (if cmp x y \<le> 0 then x # y # ys else y # insert_by cmp x ys)"

definition sort_by :: "('a \<Rightarrow> 'a \<Rightarrow> int) \<Rightarrow> 'a list \<Rightarrow> 'a list" where
  "sort_by cmp xs = foldr (insert_by cmp) xs []"

datatype 'a sort_result = Sorted 'a | ImplementationDefined

text \<open>
  A comparator may return \<open>NaN\<close> (here \<open>None\<close>); it is then not a consistent comparator
  and the language leaves the resulting order to the implementation.
\<close>

definition array_sort :: "('a \<Rightarrow> 'a \<Rightarrow> int option) \<Rightarrow> 'a list \<Rightarrow> 'a list sort_result" where
  "array_sort cmp xs =
     (if list_all (\<lambda>a. list_all (\<lambda>b. cmp a b \<noteq> None) xs) xs
      then Sorted (sort_by (\<lambda>a b. case cmp a b of Some d \<Rightarrow> d | None \<Rightarrow> 0) xs)
      else ImplementationDefined)"

section \<open>The analyzer: \<^verbatim>\<open>performDocumentAnalysis\<close>\<close>

text \<open>
  The values stored in \<^verbatim>\<open>wordFreq\<close>. The object is created by \<^verbatim>\<open>{}\<close>, so it inherits
  from \<^verbatim>\<open>Object.prototype\<close>, and \<^verbatim>\<open>wordFreq[clean]\<close> reads an inherited property when
  there is no own one. The only standard property of \<^verbatim>\<open>Object.prototype\<close> whose name
  is made of lower-case letters and digits is \<^verbatim>\<open>constructor\<close>; its value is a function, which is
  truthy, and adding 1 to it gives the text of the function followed by \<^verbatim>\<open>1\<close>.
  \<open>FnStr k\<close> stands for that text followed by \<open>k\<close> characters \<^verbatim>\<open>1\<close>.
\<close>

datatype freq = Num nat | FnStr nat

fun plus_one :: "freq \<Rightarrow> freq" where
  "plus_one (Num n) = Num (n + 1)"
| "plus_one (FnStr k) = FnStr (k + 1)"

definition clean :: "string \<Rightarrow> string" where
  \<comment> \<open>\<^verbatim>\<open>word.toLowerCase().replace(/[^a-z0-9]/g, '')\<close>\<close>
  "clean word = filter isLowerAlnum (toLowerCase word)"

text \<open>
  \<^verbatim>\<open>wordFreq\<close> is kept as the list of its own properties in creation order.
  \<^verbatim>\<open>wordFreq[k] = (wordFreq[k] || 0) + 1\<close> rewrites an own property in place and
  creates a missing one at the end.
\<close>

definition bump :: "(string \<times> freq) list \<Rightarrow> string \<Rightarrow> (string \<times> freq) list" where
  "bump fr k =
     (case map_of fr k of
        Some v \<Rightarrow> map (\<lambda>e. if fst e = k then (k, plus_one (snd e)) else e) fr
      | None \<Rightarrow> fr @ [(k, if k = ''constructor'' then FnStr 1 else Num 1)])"

definition kept_tokens :: "string list \<Rightarrow> string list" where
  \<comment> \<open>the cleaned words that pass \<^verbatim>\<open>clean.length > 3\<close>, in text order\<close>
  "kept_tokens ws = filter (\<lambda>c. 3 < length c) (map clean ws)"

definition wordFreq :: "string list \<Rightarrow> (string \<times> freq) list" where
  "wordFreq ws = foldl bump [] (kept_tokens ws)"

text \<open>
  \<^verbatim>\<open>Object.entries\<close> lists the own properties whose name is an array index (a canonical
  decimal numeral below \<open>2^32 - 1\<close>) first, in ascending numeric order, and the other
  properties after them, in creation order.
\<close>

definition numericValue :: "string \<Rightarrow> int" where
  "numericValue k = foldl (\<lambda>n c. 10 * n + ((of_char c :: int) - 48)) 0 k"

definition isArrayIndex :: "string \<Rightarrow> bool" where
  "isArrayIndex k \<longleftrightarrow>
     k \<noteq> [] \<and> list_all isDigit k \<and> (k = ''0'' \<or> hd k \<noteq> CHR ''0'') \<and>
     numericValue k < 4294967295"

definition own_key_order :: "('a \<Rightarrow> string) \<Rightarrow> 'a list \<Rightarrow> 'a list" where
  "own_key_order key xs =
     sort_key (\<lambda>x. numericValue (key x)) (filter (\<lambda>x. isArrayIndex (key x)) xs) @
     filter (\<lambda>x. \<not> isArrayIndex (key x)) xs"

definition entries :: "(string \<times> freq) list \<Rightarrow> (string \<times> freq) list" where
  "entries fr = own_key_order fst fr"

definition compare_counts :: "string \<times> freq \<Rightarrow> string \<times> freq \<Rightarrow> int option" where
  \<comment> \<open>\<^verbatim>\<open>(a, b) => b[1] - a[1]\<close>; a string that is not a numeral converts to \<open>NaN\<close>\<close>
  "compare_counts a b =
     (case (snd a, snd b) of (Num x, Num y) \<Rightarrow> Some (int y - int x) | _ \<Rightarrow> None)"

text \<open>
  \<^verbatim>\<open>(words.length / sentences.length).toFixed(1)\<close>. The quotient of two array lengths
  is \<open>NaN\<close> for 0/0 and \<open>Infinity\<close> for w/0 with w > 0, and \<^verbatim>\<open>toFixed\<close> turns these into
  the strings \<^verbatim>\<open>"NaN"\<close> and \<^verbatim>\<open>"Infinity"\<close>. For a positive divisor the result is the
  decimal string of the rounded binary floating-point quotient, kept here as the pair
  it is computed from.
\<close>

datatype fixed1 = FixedNaN | FixedInfinity | FixedQuotient nat nat

definition divide_toFixed1 :: "nat \<Rightarrow> nat \<Rightarrow> fixed1" where
  "divide_toFixed1 w s =
     (if s = 0 then (if w = 0 then FixedNaN else FixedInfinity) else FixedQuotient w s)"

record Analysis =
  sentenceCount :: nat
  wordCount :: nat
  paragraphCount :: nat
  avgWordsPerSentence :: fixed1
  topWords :: "(string \<times> freq) list sort_result"
  readingTime :: nat

definition top_words :: "string list \<Rightarrow> (string \<times> freq) list sort_result" where
  \<comment> \<open>\<^verbatim>\<open>Object.entries(wordFreq).sort((a, b) => b[1] - a[1]).slice(0, 10)\<close>\<close>
  "top_words ws =
     (case array_sort compare_counts (entries (wordFreq ws)) of
        Sorted es \<Rightarrow> Sorted (take 10 es)
      | ImplementationDefined \<Rightarrow> ImplementationDefined)"

definition performDocumentAnalysis :: "string \<Rightarrow> Analysis" where
  "performDocumentAnalysis text =
     (let sentences = sentences_of text;
          words = words_of text;
          paragraphs = paragraphs_of text
      in \<lparr> sentenceCount = length sentences,
           wordCount = length words,
           paragraphCount = length paragraphs,
           avgWordsPerSentence = divide_toFixed1 (length words) (length sentences),
           topWords = top_words words,
           readingTime = (length words + 199) div 200 \<rparr>)"

section \<open>The document built on upload: \<^verbatim>\<open>handleFileUpload\<close>\<close>

function decimal :: "nat \<Rightarrow> string" where
  "decimal n = (if n < 10 then [char_of (48 + n)] else decimal (n div 10) @ [char_of (48 + n mod 10)])"
  by pat_completeness auto
termination
  by (relation "measure (\<lambda>n. n)") auto

definition size_text :: "nat \<Rightarrow> string" where
  \<comment> \<open>\<^verbatim>\<open>(text.length / 1024).toFixed(2) + ' KB'\<close>; the division by a power of two is exact,
      and \<^verbatim>\<open>toFixed\<close> rounds the hundredths half up\<close>
  "size_text len =
     (let n = (200 * len + 1024) div 2048
      in decimal (n div 100) @ ''.'' @ decimal (n mod 100 div 10) @ decimal (n mod 10) @ '' KB'')"

text \<open>The fields \<^verbatim>\<open>id\<close> and \<^verbatim>\<open>size\<close> of the source object are \<open>doc_id\<close> and \<open>size_kb\<close> here.\<close>

record Document =
  doc_id :: nat
  name :: string
  content :: string
  uploadDate :: string
  wordCount :: nat
  size_kb :: string
  analysis :: Analysis

definition handleFileUpload :: "nat \<Rightarrow> string \<Rightarrow> string \<Rightarrow> string \<Rightarrow> Document" where
  \<comment> \<open>the \<^verbatim>\<open>doc\<close> object of the \<^verbatim>\<open>onload\<close> callback; \<open>now\<close> and \<open>stamp\<close> are the clock readings
      \<^verbatim>\<open>Date.now()\<close> and \<^verbatim>\<open>new Date().toISOString()\<close>, \<open>fname\<close> is \<^verbatim>\<open>file.name\<close>\<close>
  "handleFileUpload now stamp fname text =
     \<lparr> doc_id = now,
       name = fname,
       content = text,
       uploadDate = stamp,
       wordCount = length (split (classPlus isWhiteSpace) text),
       size_kb = size_text (length text),
       analysis = performDocumentAnalysis text \<rparr>"

section \<open>The retriever: \<^verbatim>\<open>extractRelevantContext\<close>\<close>

record scored =
  sentence :: string
  score :: nat

definition query_words :: "string \<Rightarrow> string list" where
  \<comment> \<open>\<^verbatim>\<open>query.toLowerCase().split(/\s+/)\<close>: the empty pieces are kept\<close>
  "query_words query = split (classPlus isWhiteSpace) (toLowerCase query)"

definition score_sentence :: "string list \<Rightarrow> string \<Rightarrow> scored" where
  "score_sentence queryWords s =
     (let lowerSentence = toLowerCase s
      in \<lparr> sentence = trim s,
           score = foldl (\<lambda>sc word. if includes_str lowerSentence word then sc + 1 else sc)
                     0 queryWords \<rparr>)"

definition scoredSentences :: "string \<Rightarrow> string \<Rightarrow> scored list" where
  "scoredSentences doc query = map (score_sentence (query_words query)) (sentences_of doc)"

definition by_score_desc :: "scored \<Rightarrow> scored \<Rightarrow> int" where
  \<comment> \<open>\<^verbatim>\<open>(a, b) => b.score - a.score\<close>\<close>
  "by_score_desc a b = int (score b) - int (score a)"

definition ranked :: "string \<Rightarrow> string \<Rightarrow> scored list" where
  \<comment> \<open>\<^verbatim>\<open>.filter(s => s.score > 0).sort((a, b) => b.score - a.score).slice(0, 5)\<close>\<close>
  "ranked doc query =
     take 5 (sort_by by_score_desc (filter (\<lambda>s. 0 < score s) (scoredSentences doc query)))"

definition relevantSentences :: "string \<Rightarrow> string \<Rightarrow> string list" where
  "relevantSentences doc query = map sentence (ranked doc query)"

definition extractRelevantContext :: "string \<Rightarrow> string \<Rightarrow> string" where
  "extractRelevantContext doc query =
     (if 0 < length (relevantSentences doc query)
      then join ''. '' (relevantSentences doc query)
      else join ''. '' (take 5 (sentences_of doc)))"

section \<open>The answerer: \<^verbatim>\<open>generateAnswer\<close>\<close>

definition summary_reply :: "string \<Rightarrow> string" where
  "summary_reply context =
     ''Here'' @ [CHR 0x27] @ ''s a summary based on the document: '' @
     join ''. '' (take 3 (sentences_of context)) @ ''.''"

definition numbers_reply :: "string list \<Rightarrow> string \<Rightarrow> string" where
  \<comment> \<open>\<^verbatim>\<open>context.split('.')[0]\<close> is the text before the first full stop; an array without
      element 0 would print as \<^verbatim>\<open>undefined\<close>\<close>
  "numbers_reply numbers context =
     ''Based on the document, I found the following numbers: '' @
     join '', '' (take 5 numbers) @ ''. '' @
     (case split literalDot context of [] \<Rightarrow> ''undefined'' | p # _ \<Rightarrow> p) @ ''.''"

definition definition_reply :: "string \<Rightarrow> string" where
  \<comment> \<open>\<^verbatim>\<open>sentences[0] ? sentences[0].trim() + '.' : '...'\<close>: a missing element and the
      empty string are both falsy\<close>
  "definition_reply context =
     (case sentences_of context of
        [] \<Rightarrow> ''I found some relevant information in the document.''
      | s # _ \<Rightarrow> if s = [] then ''I found some relevant information in the document.''
                 else trim s @ ''.'')"

definition default_reply :: "string \<Rightarrow> string" where
  "default_reply context =
     ''Based on the document: '' @ join ''. '' (take 3 (sentences_of context)) @ ''.''"

definition generateAnswer :: "string \<Rightarrow> string \<Rightarrow> string" where
  "generateAnswer context query =
     (let queryLower = toLowerCase query
      in if includes_str queryLower ''summar'' then summary_reply context
         else
           (case (if includes_str queryLower ''how many'' \<or> includes_str queryLower ''count''
                  then match_numbers context else None) of
              Some numbers \<Rightarrow> numbers_reply numbers context
            | None \<Rightarrow>
                if includes_str queryLower ''what is'' \<or> includes_str queryLower ''define''
                then definition_reply context
                else default_reply context))"

section \<open>Notions of the specification\<close>

definition first_seen :: "'a list \<Rightarrow> 'a list" where
  \<comment> \<open>the distinct elements of a list, in the order of their first occurrence\<close>
  "first_seen xs = rev (remdups (rev xs))"

definition tokens_of :: "string \<Rightarrow> string list" where
  \<comment> \<open>the lower-cased, stripped tokens of length above 3 of a text, in text order\<close>
  "tokens_of text = kept_tokens (words_of text)"

text \<open>The scenario of the employees question: the query, the sentence, and the shape of
  the answer that lists numbers in front of that sentence.\<close>

definition employees_query :: string where
  "employees_query = ''How many employees are there? Count them.''"

definition employees_sentence :: string where
  "employees_sentence = ''There are 42 employees in 3 departments''"

definition employees_answer :: "string list \<Rightarrow> string" where
  "employees_answer listed =
     ''Based on the document, I found the following numbers: '' @ join '', '' listed @
     ''. There are 42 employees in 3 departments.''"

section \<open>Facts about the string primitives\<close>

lemma trim_Nil: "trim [] = []"
  by (simp add: trim_def)

lemma length_trim_le: "length (trim s) \<le> length s"
proof -
  have "length (trim s) \<le> length (dropWhile isWhiteSpace s)"
    unfolding trim_def by (metis length_dropWhile_le length_rev)
  also have "\<dots> \<le> length s" by (rule length_dropWhile_le)
  finally show ?thesis .
qed

lemma sentences_nonempty: "s \<in> set (sentences_of c) \<Longrightarrow> s \<noteq> []"
  by (auto simp: sentences_of_def trim_def)

lemma length_join_hd: "length x \<le> length (join sep (x # xs))"
  by (cases xs) auto

lemma includes_empty: "includes_str s []"
  by (cases s) auto

lemma lowerChar_space: "isWhiteSpace c \<Longrightarrow> lowerChar c = c"
  by (auto simp: isWhiteSpace_def lowerChar_def)

lemma no_digits_no_match: "\<forall>c\<in>set s. \<not> isDigit c \<Longrightarrow> match_digits s = []"
  by (induction s) auto

lemma split_at_nonempty: "split_at m acc s \<noteq> []"
  by (induction m acc s rule: split_at.induct) auto

lemma split_leading: "p c \<Longrightarrow> [] \<in> set (split (classPlus p) (c # cs))"
  by (simp add: split_def classPlus_def)

lemma split_trailing:
  "s \<noteq> [] \<Longrightarrow> p (last s) \<Longrightarrow> last (split_at (classPlus p) acc s) = []"
proof (induction "classPlus p" acc s rule: split_at.induct)
  case (1 acc)
  then show ?case by simp
next
  case (2 acc c cs)
  show ?case
  proof (cases "p c")
    case False
    with 2 have "cs \<noteq> []" by auto
    with 2 False show ?thesis by (simp add: classPlus_def)
  next
    case True
    let ?rest = "drop (classPlus p (c # cs)) (c # cs)"
    have m: "classPlus p (c # cs) \<noteq> 0" using True by (simp add: classPlus_def)
    show ?thesis
    proof (cases "?rest = []")
      case True
      with m show ?thesis by (simp add: split_at_nonempty)
    next
      case False
      have "last ?rest = last (c # cs)"
        using False by (metis append_take_drop_id last_appendR)
      with 2 False m show ?thesis by (simp add: split_at_nonempty)
    qed
  qed
qed

lemma query_words_empty_token:
  assumes "query \<noteq> []" "isWhiteSpace (hd query) \<or> isWhiteSpace (last query)"
  shows "[] \<in> set (query_words query)"
proof -
  obtain c cs where q: "query = c # cs" using assms(1) by (cases query) auto
  from assms(2) show ?thesis
  proof
    assume "isWhiteSpace (hd query)"
    then have "isWhiteSpace (lowerChar c)" using q by (simp add: lowerChar_space)
    then show ?thesis
      unfolding query_words_def toLowerCase_def q by (simp add: split_leading)
  next
    assume "isWhiteSpace (last query)"
    then have "isWhiteSpace (last (toLowerCase query))"
      using assms(1) by (simp add: toLowerCase_def last_map lowerChar_space)
    moreover have "toLowerCase query \<noteq> []" using assms(1) by (simp add: toLowerCase_def)
    ultimately have "last (split_at (classPlus isWhiteSpace) [] (toLowerCase query)) = []"
      by (rule split_trailing[rotated])
    then show ?thesis
      unfolding query_words_def split_def
      by (metis last_in_set split_at_nonempty)
  qed
qed

section \<open>Facts about sorting\<close>

lemma sort_by_Nil: "sort_by cmp [] = []"
  by (simp add: sort_by_def)

lemma sort_by_length: "length (sort_by cmp xs) = length xs"
proof -
  have "length (insert_by cmp x ys) = Suc (length ys)" for x ys
    by (induction ys) auto
  then show ?thesis by (induction xs) (simp_all add: sort_by_def)
qed

lemma insert_by_insort: "insert_by (\<lambda>a b. f a - f b) x xs = insort_key f x xs"
  for f :: "'a \<Rightarrow> int"
  by (induction xs) auto

lemma sort_by_sort_key: "sort_by (\<lambda>a b. f a - f b) xs = sort_key f xs"
  for f :: "'a \<Rightarrow> int"
  by (induction xs) (simp_all add: sort_by_def insert_by_insort)

lemma prefix_filter_take: "prefix (filter P (take n xs)) (filter P xs)"
proof -
  have "filter P xs = filter P (take n xs) @ filter P (drop n xs)"
    by (metis append_take_drop_id filter_append)
  then show ?thesis by (simp add: prefix_def)
qed

section \<open>Facts about the retriever\<close>

lemma foldl_score_mono:
  "n \<le> foldl (\<lambda>sc word. if includes_str l word then sc + 1 else sc) n qw" for n :: nat
proof (induction qw arbitrary: n)
  case Nil
  show ?case by simp
next
  case (Cons w ws)
  have "n \<le> (if includes_str l w then n + 1 else n)" by simp
  also have "\<dots> \<le> foldl (\<lambda>sc word. if includes_str l word then sc + 1 else sc)
                      (if includes_str l w then n + 1 else n) ws"
    by (rule Cons.IH)
  finally show ?case by simp
qed

lemma foldl_score_hit:
  "w \<in> set qw \<Longrightarrow> includes_str l w \<Longrightarrow>
   n + 1 \<le> foldl (\<lambda>sc word. if includes_str l word then sc + 1 else sc) n qw" for n :: nat
proof (induction qw arbitrary: n)
  case Nil
  then show ?case by simp
next
  case (Cons v vs)
  show ?case
  proof (cases "includes_str l v")
    case True
    then show ?thesis using foldl_score_mono[of "n + 1" l vs] by simp
  next
    case False
    with Cons.prems have "w \<in> set vs" by auto
    with Cons.IH[OF this Cons.prems(2), of n] False show ?thesis by simp
  qed
qed

lemma score_hit:
  "w \<in> set qw \<Longrightarrow> includes_str (toLowerCase s) w \<Longrightarrow> 1 \<le> score (score_sentence qw s)"
  using foldl_score_hit[of w qw "toLowerCase s" 0] by (simp add: score_sentence_def Let_def)

lemma score_zero:
  "\<forall>w\<in>set qw. \<not> includes_str (toLowerCase s) w \<Longrightarrow> score (score_sentence qw s) = 0"
proof -
  have "\<forall>w\<in>set qw. \<not> includes_str l w \<Longrightarrow>
        foldl (\<lambda>sc word. if includes_str l word then sc + 1 else sc) n qw = n" for l and n :: nat
    by (induction qw arbitrary: n) auto
  then show "\<forall>w\<in>set qw. \<not> includes_str (toLowerCase s) w \<Longrightarrow> score (score_sentence qw s) = 0"
    by (simp add: score_sentence_def Let_def)
qed

lemma by_score_desc_key: "by_score_desc = (\<lambda>a b. (- int (score a)) - (- int (score b)))"
  by (simp add: by_score_desc_def fun_eq_iff)

lemma sort_scores: "sort_by by_score_desc xs = sort_key (\<lambda>s. - int (score s)) xs"
  unfolding by_score_desc_key by (rule sort_by_sort_key)

lemma sorted_wrt_desc:
  "sorted_wrt (\<lambda>a b. score b \<le> score a) (sort_key (\<lambda>s. - int (score s)) xs)"
proof -
  have "sorted (map (\<lambda>s. - int (score s)) (sort_key (\<lambda>s. - int (score s)) xs))"
    by (rule sorted_sort_key)
  then show ?thesis by (simp add: sorted_map sorted_wrt_iff_nth_less)
qed

lemma ranked_sorted: "sorted_wrt (\<lambda>a b. score b \<le> score a) (ranked doc query)"
  unfolding ranked_def sort_scores by (rule sorted_wrt_take[OF sorted_wrt_desc])

lemma ranked_stable:
  "prefix (filter (\<lambda>s. score s = k) (ranked doc query))
          (filter (\<lambda>s. score s = k) (scoredSentences doc query))"
proof (cases "k = 0")
  case True
  have "\<forall>s\<in>set (ranked doc query). 0 < score s"
    by (auto simp: ranked_def sort_scores dest!: in_set_takeD)
  then have "filter (\<lambda>s. score s = k) (ranked doc query) = []"
    using True by (auto simp: filter_empty_conv)
  then show ?thesis by simp
next
  case False
  let ?pos = "filter (\<lambda>s. 0 < score s) (scoredSentences doc query)"
  let ?key = "\<lambda>s. - int (score s)"
  have "filter (\<lambda>s. score s = k) (sort_key ?key ?pos) =
        filter (\<lambda>s. ?key s = - int k) (sort_key ?key ?pos)"
    by simp
  also have "\<dots> = filter (\<lambda>s. ?key s = - int k) ?pos"
    by (rule sort_key_stable)
  also have "\<dots> = filter (\<lambda>s. score s = k) (scoredSentences doc query)"
    using False by (auto intro: filter_cong)
  finally have eq: "filter (\<lambda>s. score s = k) (sort_key ?key ?pos) =
                    filter (\<lambda>s. score s = k) (scoredSentences doc query)" .
  show ?thesis
    unfolding ranked_def sort_scores
    using prefix_filter_take[of "\<lambda>s. score s = k" 5 "sort_key ?key ?pos"]
    by (simp only: eq)
qed

section \<open>Facts about the answerer\<close>

lemma summary_ne_definition: "summary_reply c \<noteq> definition_reply c"
proof (cases "sentences_of c")
  case Nil
  then show ?thesis by (simp add: summary_reply_def definition_reply_def)
next
  case (Cons s rest)
  then have "s \<in> set (sentences_of c)" by simp
  then have ne: "s \<noteq> []" by (rule sentences_nonempty)
  have "length (definition_reply c) = length (trim s) + 1"
    using Cons ne by (simp add: definition_reply_def)
  moreover have "length (summary_reply c) = 41 + length (join ''. '' (take 3 (s # rest)))"
    using Cons by (simp add: summary_reply_def)
  moreover have "take 3 (s # rest) = s # take 2 rest"
    by (simp add: take_Cons')
  then have "length s \<le> length (join ''. '' (take 3 (s # rest)))"
    by (simp only: length_join_hd)
  ultimately have "length (definition_reply c) < length (summary_reply c)"
    using length_trim_le[of s] by linarith
  then show ?thesis by auto
qed

section \<open>Facts about the analyzer\<close>

lemma first_seen_snoc: "first_seen (xs @ [x]) = (if x \<in> set xs then first_seen xs else first_seen xs @ [x])"
  by (simp add: first_seen_def)

lemma set_first_seen: "set (first_seen xs) = set xs"
  by (simp add: first_seen_def)

lemma distinct_first_seen: "distinct (first_seen xs)"
  by (simp add: first_seen_def)

lemma length_first_seen: "length (first_seen xs) = card (set xs)"
  by (metis distinct_card distinct_first_seen set_first_seen)

lemma map_of_counted: "map_of (map (\<lambda>w. (w, f w)) ks) t = (if t \<in> set ks then Some (f t) else None)"
  by (induction ks) auto

lemma bump_old:
  "t \<in> set ks \<Longrightarrow>
   bump (map (\<lambda>w. (w, Num (c w))) ks) t = map (\<lambda>w. (w, Num (if w = t then c w + 1 else c w))) ks"
  by (auto simp: bump_def map_of_counted)

lemma bump_new:
  "t \<notin> set ks \<Longrightarrow> t \<noteq> ''constructor'' \<Longrightarrow>
   bump (map (\<lambda>w. (w, Num (c w))) ks) t = map (\<lambda>w. (w, Num (c w))) ks @ [(t, Num 1)]"
  by (simp add: bump_def map_of_counted)

lemma foldl_bump:
  "''constructor'' \<notin> set ts \<Longrightarrow>
   foldl bump [] ts = map (\<lambda>w. (w, Num (count_list ts w))) (first_seen ts)"
proof (induction ts rule: rev_induct)
  case Nil
  show ?case by (simp add: first_seen_def)
next
  case (snoc t ts)
  then have IH: "foldl bump [] ts = map (\<lambda>w. (w, Num (count_list ts w))) (first_seen ts)"
    and t: "t \<noteq> ''constructor''" by auto
  have step: "foldl bump [] (ts @ [t]) = bump (map (\<lambda>w. (w, Num (count_list ts w))) (first_seen ts)) t"
    by (simp only: foldl_append foldl_Cons foldl_Nil IH)
  show ?case
  proof (cases "t \<in> set ts")
    case True
    then have "bump (map (\<lambda>w. (w, Num (count_list ts w))) (first_seen ts)) t =
          map (\<lambda>w. (w, Num (if w = t then count_list ts w + 1 else count_list ts w))) (first_seen ts)"
      by (simp add: bump_old set_first_seen)
    also have "\<dots> = map (\<lambda>w. (w, Num (count_list (ts @ [t]) w))) (first_seen (ts @ [t]))"
      using True by (auto simp: first_seen_snoc)
    finally show ?thesis using step by simp
  next
    case False
    then have "bump (map (\<lambda>w. (w, Num (count_list ts w))) (first_seen ts)) t =
          map (\<lambda>w. (w, Num (count_list ts w))) (first_seen ts) @ [(t, Num 1)]"
      using t by (simp add: bump_new set_first_seen)
    also have "\<dots> = map (\<lambda>w. (w, Num (count_list (ts @ [t]) w))) (first_seen (ts @ [t]))"
      using False by (auto simp: first_seen_snoc set_first_seen)
    finally show ?thesis using step by simp
  qed
qed

lemma insort_key_map:
  "insort_key f (h x) (map h xs) = map h (insort_key (\<lambda>a. f (h a)) x xs)"
  by (induction xs) auto

lemma sort_key_map: "sort_key f (map h xs) = map h (sort_key (\<lambda>a. f (h a)) xs)"
  by (induction xs) (simp_all add: insort_key_map)

lemma sort_by_desc:
  "sort_by (\<lambda>a b. int (c b) - int (c a)) ks = sort_key (\<lambda>w. - int (c w)) ks"
  using sort_by_sort_key[of "\<lambda>w. - int (c w)" ks] by simp

lemma own_key_order_map: "own_key_order fst (map (\<lambda>w. (w, g w)) ks) = map (\<lambda>w. (w, g w)) (own_key_order id ks)"
  by (simp add: own_key_order_def filter_map sort_key_map comp_def)

lemma insert_by_map: "insert_by cmp (h x) (map h xs) = map h (insert_by (\<lambda>a b. cmp (h a) (h b)) x xs)"
  by (induction xs) auto

lemma sort_by_map: "sort_by cmp (map h xs) = map h (sort_by (\<lambda>a b. cmp (h a) (h b)) xs)"
  by (induction xs) (simp_all add: sort_by_def insert_by_map)

lemma array_sort_counted:
  "array_sort compare_counts (map (\<lambda>w. (w, Num (c w))) ks) =
   Sorted (map (\<lambda>w. (w, Num (c w))) (sort_key (\<lambda>w. - int (c w)) ks))"
proof -
  have "list_all (\<lambda>a. list_all (\<lambda>b. compare_counts a b \<noteq> None) (map (\<lambda>w. (w, Num (c w))) ks)) (map (\<lambda>w. (w, Num (c w))) ks)"
    by (simp add: list_all_iff compare_counts_def)
  moreover have "sort_by (\<lambda>a b. case compare_counts a b of Some d \<Rightarrow> d | None \<Rightarrow> 0) (map (\<lambda>w. (w, Num (c w))) ks)
      = map (\<lambda>w. (w, Num (c w))) (sort_by (\<lambda>a b. int (c b) - int (c a)) ks)"
    by (simp add: sort_by_map compare_counts_def)
  ultimately show ?thesis
    by (simp add: array_sort_def sort_by_desc)
qed

lemma top_words_explicit:
  assumes "''constructor'' \<notin> set (kept_tokens ws)"
  shows "top_words ws = Sorted (map (\<lambda>w. (w, Num (count_list (kept_tokens ws) w)))
            (take 10 (sort_key (\<lambda>w. - int (count_list (kept_tokens ws) w)) (own_key_order id (first_seen (kept_tokens ws))))))"
  by (simp add: top_words_def wordFreq_def foldl_bump[OF assms] entries_def own_key_order_map array_sort_counted take_map)

lemma length_own_key_order: "length (own_key_order key xs) = length xs"
  by (simp add: own_key_order_def sum_length_filter_compl)

lemma own_key_order_no_index: "\<forall>x\<in>set xs. \<not> isArrayIndex (key x) \<Longrightarrow> own_key_order key xs = xs"
  by (simp add: own_key_order_def filter_id_conv filter_empty_conv)

lemma sorted_desc_key: "sorted_wrt (\<lambda>a b. c b \<le> c a) (sort_key (\<lambda>w. - int (c w)) xs)" for c :: "'a \<Rightarrow> nat"
proof -
  have "sorted (map (\<lambda>w. - int (c w)) (sort_key (\<lambda>w. - int (c w)) xs))"
    by (rule sorted_sort_key)
  then show ?thesis by (simp add: sorted_map sorted_wrt_iff_nth_less)
qed

lemma stable_desc_key: "filter (\<lambda>w. c w = k) (sort_key (\<lambda>w. - int (c w)) xs) = filter (\<lambda>w. c w = k) xs" for c :: "'a \<Rightarrow> nat"
proof -
  have "filter (\<lambda>w. c w = k) (sort_key (\<lambda>w. - int (c w)) xs) = filter (\<lambda>w. - int (c w) = - int k) (sort_key (\<lambda>w. - int (c w)) xs)"
    by simp
  also have "\<dots> = filter (\<lambda>w. - int (c w) = - int k) xs" by (rule sort_key_stable)
  finally show ?thesis by simp
qed


lemma topWords_top_words: "topWords (performDocumentAnalysis text) = top_words (words_of text)"
  by (simp add: performDocumentAnalysis_def Let_def)

section \<open>Facts about substrings and the employees scenario\<close>

lemma startsWith_iff: "startsWith s w \<longleftrightarrow> (\<exists>b. s = w @ b)"
  by (induction s w rule: startsWith.induct) auto

lemma includes_iff: "includes_str s w \<longleftrightarrow> (\<exists>a b. s = a @ w @ b)"
proof (induction s)
  case Nil
  show ?case by (auto simp: startsWith_iff)
next
  case (Cons c cs)
  show ?case
  proof
    assume "includes_str (c # cs) w"
    then consider "startsWith (c # cs) w" | "includes_str cs w" by auto
    then show "\<exists>a b. c # cs = a @ w @ b"
    proof cases
      case 1
      then obtain b where "c # cs = [] @ w @ b" by (auto simp: startsWith_iff)
      then show ?thesis by blast
    next
      case 2
      then obtain a b where "cs = a @ w @ b" using Cons.IH by blast
      then have "c # cs = (c # a) @ w @ b" by simp
      then show ?thesis by blast
    qed
  next
    assume "\<exists>a b. c # cs = a @ w @ b"
    then obtain a b where ab: "c # cs = a @ w @ b" by blast
    show "includes_str (c # cs) w"
    proof (cases a)
      case Nil
      with ab have "startsWith (c # cs) w" by (auto simp: startsWith_iff)
      then show ?thesis by simp
    next
      case (Cons x xs)
      with ab have "cs = xs @ w @ b" by simp
      then have "includes_str cs w" using Cons.IH by blast
      then show ?thesis by simp
    qed
  qed
qed

lemma trim_infix: "\<exists>a b. s = a @ trim s @ b"
proof -
  let ?d = "dropWhile isWhiteSpace s"
  have "s = takeWhile isWhiteSpace s @ ?d" by simp
  moreover have "rev ?d = takeWhile isWhiteSpace (rev ?d) @ dropWhile isWhiteSpace (rev ?d)" by simp
  then have "?d = rev (dropWhile isWhiteSpace (rev ?d)) @ rev (takeWhile isWhiteSpace (rev ?d))"
    by (metis rev_append rev_rev_ident)
  ultimately have "s = takeWhile isWhiteSpace s @ trim s @ rev (takeWhile isWhiteSpace (rev ?d))"
    by (simp add: trim_def)
  then show ?thesis by blast
qed

lemma includes_trim: "includes_str (toLowerCase (trim s)) w \<Longrightarrow> includes_str (toLowerCase s) w"
proof -
  assume "includes_str (toLowerCase (trim s)) w"
  then obtain x y where xy: "toLowerCase (trim s) = x @ w @ y" by (auto simp: includes_iff)
  obtain a b where "s = a @ trim s @ b" using trim_infix by blast
  then have "toLowerCase s = toLowerCase a @ toLowerCase (trim s) @ toLowerCase b"
    by (metis map_append toLowerCase_def)
  then have "toLowerCase s = (toLowerCase a @ x) @ w @ (y @ toLowerCase b)"
    using xy by simp
  then show ?thesis unfolding includes_iff by blast
qed

lemma employees_answers:
  "generateAnswer (join ''. '' (replicate 1 employees_sentence)) employees_query =
     employees_answer [''42'', ''3'']"
  "generateAnswer (join ''. '' (replicate 2 employees_sentence)) employees_query =
     employees_answer [''42'', ''3'', ''42'', ''3'']"
  "generateAnswer (join ''. '' (replicate 3 employees_sentence)) employees_query =
     employees_answer [''42'', ''3'', ''42'', ''3'', ''42'']"
  "generateAnswer (join ''. '' (replicate 4 employees_sentence)) employees_query =
     employees_answer [''42'', ''3'', ''42'', ''3'', ''42'']"
  "generateAnswer (join ''. '' (replicate 5 employees_sentence)) employees_query =
     employees_answer [''42'', ''3'', ''42'', ''3'', ''42'']"
  by code_simp+

lemma employees_context:
  assumes "\<exists>s\<in>set (sentences_of doc). trim s = employees_sentence"
    and "\<forall>s\<in>set (sentences_of doc). trim s \<noteq> employees_sentence \<longrightarrow>
           (\<forall>w\<in>set (query_words employees_query). \<not> includes_str (toLowerCase s) w)"
  shows "\<exists>m. 1 \<le> m \<and> m \<le> 5 \<and>
           extractRelevantContext doc employees_query = join ''. '' (replicate m employees_sentence)"
proof -
  let ?qw = "query_words employees_query"
  let ?pos = "filter (\<lambda>s. 0 < score s) (scoredSentences doc employees_query)"
  have emp: "''employees'' \<in> set ?qw" by code_simp
  have inc: "includes_str (toLowerCase employees_sentence) ''employees''" by code_simp
  have all: "sentence x = employees_sentence" if "x \<in> set ?pos" for x
  proof -
    from that obtain s where s: "s \<in> set (sentences_of doc)" "x = score_sentence ?qw s" "0 < score x"
      by (auto simp: scoredSentences_def)
    have "trim s = employees_sentence"
    proof (rule ccontr)
      assume "trim s \<noteq> employees_sentence"
      with assms(2) s(1) have "\<forall>w\<in>set ?qw. \<not> includes_str (toLowerCase s) w" by blast
      then have "score (score_sentence ?qw s) = 0" by (rule score_zero)
      with s show False by simp
    qed
    then show ?thesis using s(2) by (simp add: score_sentence_def Let_def)
  qed
  from assms(1) obtain s where s: "s \<in> set (sentences_of doc)" "trim s = employees_sentence"
    by blast
  have "includes_str (toLowerCase s) ''employees''"
    using inc s(2) by (simp add: includes_trim)
  then have "1 \<le> score (score_sentence ?qw s)" by (rule score_hit[OF emp])
  then have "score_sentence ?qw s \<in> set ?pos" using s(1) by (simp add: scoredSentences_def)
  then have ne: "?pos \<noteq> []" by (metis empty_iff empty_set)
  let ?m = "length (ranked doc employees_query)"
  have len: "?m = min (length ?pos) 5"
    by (simp add: ranked_def sort_by_length)
  have m1: "1 \<le> ?m" using ne len by (cases ?pos) auto
  have m5: "?m \<le> 5" using len by simp
  have "\<forall>x\<in>set (ranked doc employees_query). sentence x = employees_sentence"
    using all by (auto simp: ranked_def sort_scores dest!: in_set_takeD)
  then have "\<forall>y\<in>set (relevantSentences doc employees_query). y = employees_sentence"
    by (auto simp: relevantSentences_def)
  then have "replicate (length (relevantSentences doc employees_query)) employees_sentence =
      relevantSentences doc employees_query"
    by (rule replicate_length_same)
  then have rel: "relevantSentences doc employees_query = replicate ?m employees_sentence"
    by (simp add: relevantSentences_def)
  have "0 < length (relevantSentences doc employees_query)"
    using m1 by (simp only: relevantSentences_def length_map)
  then have "extractRelevantContext doc employees_query = join ''. '' (replicate ?m employees_sentence)"
    using rel by (simp add: extractRelevantContext_def)
  with m1 m5 show ?thesis by blast
qed

section \<open>The properties of the specification, one by one\<close>

text \<open>
  C1. For a text with no sentence the analyzer should report 0 as the average number of
  words per sentence. The code divides by the sentence count without a guard: for the
  empty text every count is 0, \<^verbatim>\<open>topWords\<close> is empty and \<^verbatim>\<open>readingTime\<close> is 0, but the
  average is the string \<^verbatim>\<open>NaN\<close>; and whenever the sentence count is 0 the average is
  \<^verbatim>\<open>NaN\<close> (no word) or \<^verbatim>\<open>Infinity\<close> (some word), never a number.
\<close>

theorem analysis_without_sentences:
  "performDocumentAnalysis '''' =
     \<lparr> sentenceCount = 0, wordCount = 0, paragraphCount = 0,
       avgWordsPerSentence = FixedNaN, topWords = Sorted [], readingTime = 0 \<rparr> \<and>
   (sentenceCount (performDocumentAnalysis text) = 0 \<longrightarrow>
      avgWordsPerSentence (performDocumentAnalysis text) =
        (if Analysis.wordCount (performDocumentAnalysis text) = 0
         then FixedNaN else FixedInfinity))"
proof
  show "performDocumentAnalysis '''' =
     \<lparr> sentenceCount = 0, wordCount = 0, paragraphCount = 0,
       avgWordsPerSentence = FixedNaN, topWords = Sorted [], readingTime = 0 \<rparr>"
    by code_simp
  show "sentenceCount (performDocumentAnalysis text) = 0 \<longrightarrow>
      avgWordsPerSentence (performDocumentAnalysis text) =
        (if Analysis.wordCount (performDocumentAnalysis text) = 0
         then FixedNaN else FixedInfinity)"
    by (simp add: performDocumentAnalysis_def divide_toFixed1_def Let_def)
qed

theorem analysis_without_sentences_witness:
  "sentenceCount (performDocumentAnalysis ''...'') = 0 \<and>
   Analysis.wordCount (performDocumentAnalysis ''...'') = 1 \<and>
   avgWordsPerSentence (performDocumentAnalysis ''...'') = FixedInfinity"
proof -
  have s: "sentenceCount (performDocumentAnalysis ''...'') = 0" by code_simp
  have w: "Analysis.wordCount (performDocumentAnalysis ''...'') = 1" by code_simp
  from analysis_without_sentences[of "''...''"] s w show ?thesis by simp
qed

text \<open>
  C2. A counting query (\<^verbatim>\<open>how many\<close> or \<^verbatim>\<open>count\<close>, no \<^verbatim>\<open>summar\<close>) over a context without
  digits is not always answered by the default reply: the code goes on to the next test,
  so a query that also contains \<^verbatim>\<open>what is\<close> or \<^verbatim>\<open>define\<close> gets the definition reply.
  The query \<^verbatim>\<open>what is the count\<close> over the context \<^verbatim>\<open>A. B\<close> is answered \<^verbatim>\<open>A.\<close>
\<close>

theorem counting_query_default_counterexample:
  "includes_str (toLowerCase ''what is the count'') ''count'' \<and>
   \<not> includes_str (toLowerCase ''what is the count'') ''summar'' \<and>
   match_digits ''A. B'' = [] \<and>
   generateAnswer ''A. B'' ''what is the count'' = ''A.'' \<and>
   default_reply ''A. B'' = ''Based on the document: A.  B.'' \<and>
   generateAnswer ''A. B'' ''what is the count'' \<noteq> default_reply ''A. B''"
  by code_simp

text \<open>
  C2, as the code has it. A counting query without \<^verbatim>\<open>summar\<close> over a context without
  digits gets the definition reply when it contains \<^verbatim>\<open>what is\<close> or \<^verbatim>\<open>define\<close>, and the
  default reply (\<^verbatim>\<open>Based on the document: \<close>, the first three sentences of the context
  joined by \<^verbatim>\<open>. \<close>, and a full stop) otherwise.
\<close>

theorem counting_query_without_digits:
  assumes "includes_str (toLowerCase query) ''how many'' \<or>
           includes_str (toLowerCase query) ''count''"
    and "\<not> includes_str (toLowerCase query) ''summar''"
    and "\<forall>c\<in>set context. \<not> isDigit c"
  shows "generateAnswer context query =
           (if includes_str (toLowerCase query) ''what is'' \<or>
               includes_str (toLowerCase query) ''define''
            then definition_reply context
            else ''Based on the document: '' @
                 join ''. '' (take 3 (sentences_of context)) @ ''.'')"
  using assms
  by (simp add: generateAnswer_def Let_def match_numbers_def no_digits_no_match default_reply_def)

theorem counting_query_without_digits_witness:
  "(includes_str (toLowerCase ''Count the items'') ''how many'' \<or>
    includes_str (toLowerCase ''Count the items'') ''count'') \<and>
   \<not> includes_str (toLowerCase ''Count the items'') ''summar'' \<and>
   list_all (\<lambda>c. \<not> isDigit c) ''A. B'' \<and>
   generateAnswer ''A. B'' ''Count the items'' = ''Based on the document: A.  B.''"
proof -
  have h1: "includes_str (toLowerCase ''Count the items'') ''how many'' \<or>
            includes_str (toLowerCase ''Count the items'') ''count''" by code_simp
  have h2: "\<not> includes_str (toLowerCase ''Count the items'') ''summar''" by code_simp
  have h3: "\<forall>c\<in>set ''A. B''. \<not> isDigit c" by code_simp
  have n: "\<not> (includes_str (toLowerCase ''Count the items'') ''what is'' \<or>
              includes_str (toLowerCase ''Count the items'') ''define'')" by code_simp
  have r: "''Based on the document: '' @ join ''. '' (take 3 (sentences_of ''A. B'')) @ ''.'' =
           ''Based on the document: A.  B.''" by code_simp
  from counting_query_without_digits[OF h1 h2 h3] n r
  have "generateAnswer ''A. B'' ''Count the items'' = ''Based on the document: A.  B.''"
    by simp
  with h1 h2 h3 show ?thesis by (simp add: list_all_iff)
qed

text \<open>
  C3. The \<^verbatim>\<open>wordCount\<close> of an uploaded document should be the number of non-empty
  whitespace-delimited tokens of its content, as \<^verbatim>\<open>performDocumentAnalysis\<close> counts it.
  \<^verbatim>\<open>handleFileUpload\<close> leaves out the filter: for the empty content the document says 1
  and its analysis says 0, and in general the document's count exceeds the analysis's
  by the number of empty pieces of the split (one for leading and one for trailing
  whitespace).
\<close>

theorem upload_wordCount_empty_content:
  "Document.wordCount (handleFileUpload now stamp fname '''') = 1 \<and>
   Analysis.wordCount (analysis (handleFileUpload now stamp fname '''')) = 0 \<and>
   Document.wordCount (handleFileUpload now stamp fname text) =
     Analysis.wordCount (analysis (handleFileUpload now stamp fname text)) +
     length (filter (\<lambda>w. w = []) (split (classPlus isWhiteSpace) text))"
proof (intro conjI)
  show "Document.wordCount (handleFileUpload now stamp fname '''') = 1"
    by (simp add: handleFileUpload_def split_def)
  show "Analysis.wordCount (analysis (handleFileUpload now stamp fname '''')) = 0"
    by (simp add: handleFileUpload_def performDocumentAnalysis_def split_def words_of_def Let_def)
  have "length (filter (\<lambda>w. 0 < length w) (split (classPlus isWhiteSpace) text)) +
        length (filter (\<lambda>w. \<not> 0 < length w) (split (classPlus isWhiteSpace) text)) =
        length (split (classPlus isWhiteSpace) text)"
    by (rule sum_length_filter_compl)
  then show "Document.wordCount (handleFileUpload now stamp fname text) =
     Analysis.wordCount (analysis (handleFileUpload now stamp fname text)) +
     length (filter (\<lambda>w. w = []) (split (classPlus isWhiteSpace) text))"
    by (simp add: handleFileUpload_def performDocumentAnalysis_def words_of_def Let_def)
qed

text \<open>
  C5. When no lower-cased query token is a substring of any lower-cased sentence, the
  retriever should return the first five sentences of the document (all of them when
  there are fewer), in document order, joined by \<^verbatim>\<open>. \<close>. The sentences of the retriever
  are trimmed, and the ranked branch joins \<^verbatim>\<open>sentence.trim()\<close>; the fallback branch joins
  the fragments of the split as they are. For the document \<^verbatim>\<open>One. Two\<close> and the query
  \<^verbatim>\<open>zebra\<close> no sentence scores and the result is \<^verbatim>\<open>One.  Two\<close>, with the blank that
  begins the second fragment kept, where the join of the sentences is \<^verbatim>\<open>One. Two\<close>; the
  same document through the ranked branch (query \<^verbatim>\<open>o\<close>) gives \<^verbatim>\<open>One. Two\<close>. In general
  the fallback result is the join of the first five untrimmed fragments.
\<close>

theorem fallback_joins_untrimmed_fragments:
  "map score (scoredSentences ''One. Two'' ''zebra'') = [0, 0] \<and>
   extractRelevantContext ''One. Two'' ''zebra'' = ''One.  Two'' \<and>
   join ''. '' (map trim (take 5 (sentences_of ''One. Two''))) = ''One. Two'' \<and>
   extractRelevantContext ''One. Two'' ''zebra'' \<noteq>
     join ''. '' (map trim (take 5 (sentences_of ''One. Two''))) \<and>
   extractRelevantContext ''One. Two'' ''o'' = ''One. Two'' \<and>
   ((\<forall>s\<in>set (sentences_of doc). \<forall>w\<in>set (query_words query).
        \<not> includes_str (toLowerCase s) w) \<longrightarrow>
    extractRelevantContext doc query = join ''. '' (take 5 (sentences_of doc)))"
proof (intro conjI impI)
  show "map score (scoredSentences ''One. Two'' ''zebra'') = [0, 0]"
    by code_simp
  show "extractRelevantContext ''One. Two'' ''zebra'' = ''One.  Two''"
    by code_simp
  show "join ''. '' (map trim (take 5 (sentences_of ''One. Two''))) = ''One. Two''"
    by code_simp
  show "extractRelevantContext ''One. Two'' ''zebra'' \<noteq>
     join ''. '' (map trim (take 5 (sentences_of ''One. Two'')))"
    by code_simp
  show "extractRelevantContext ''One. Two'' ''o'' = ''One. Two''"
    by code_simp
next
  assume none: "\<forall>s\<in>set (sentences_of doc). \<forall>w\<in>set (query_words query).
                  \<not> includes_str (toLowerCase s) w"
  have "\<forall>x\<in>set (scoredSentences doc query). score x = 0"
    using none by (auto simp: scoredSentences_def score_zero)
  then have "filter (\<lambda>s. 0 < score s) (scoredSentences doc query) = []"
    by (simp add: filter_empty_conv)
  then have "relevantSentences doc query = []"
    by (simp add: relevantSentences_def ranked_def sort_by_Nil)
  then show "extractRelevantContext doc query = join ''. '' (take 5 (sentences_of doc))"
    by (simp add: extractRelevantContext_def)
qed

theorem fallback_joins_untrimmed_fragments_witness:
  "list_all (\<lambda>s. list_all (\<lambda>w. \<not> includes_str (toLowerCase s) w) (query_words ''zebra''))
     (sentences_of ''One. Two! Three? Four. Five. Six. Seven'') \<and>
   extractRelevantContext ''One. Two! Three? Four. Five. Six. Seven'' ''zebra'' =
     ''One.  Two.  Three.  Four.  Five''"
proof -
  have h: "\<forall>s\<in>set (sentences_of ''One. Two! Three? Four. Five. Six. Seven'').
      \<forall>w\<in>set (query_words ''zebra''). \<not> includes_str (toLowerCase s) w" by code_simp
  have r: "join ''. '' (take 5 (sentences_of ''One. Two! Three? Four. Five. Six. Seven'')) =
      ''One.  Two.  Three.  Four.  Five''" by code_simp
  from fallback_joins_untrimmed_fragments
         [of "''One. Two! Three? Four. Five. Six. Seven''" "''zebra''"]
  have "(\<forall>s\<in>set (sentences_of ''One. Two! Three? Four. Five. Six. Seven'').
           \<forall>w\<in>set (query_words ''zebra''). \<not> includes_str (toLowerCase s) w) \<longrightarrow>
        extractRelevantContext ''One. Two! Three? Four. Five. Six. Seven'' ''zebra'' =
          join ''. '' (take 5 (sentences_of ''One. Two! Three? Four. Five. Six. Seven''))"
    by blast
  with h r show ?thesis by (simp add: list_all_iff)
qed

text \<open>
  C6. A query whose lower-casing contains both \<^verbatim>\<open>summar\<close> and \<^verbatim>\<open>define\<close> gets the
  summary reply (\<^verbatim>\<open>Here's a summary based on the document: \<close> and the first three
  sentences of the context), and that reply is never the definition reply.
\<close>

theorem summary_before_definition:
  assumes "includes_str (toLowerCase query) ''summar''"
    and "includes_str (toLowerCase query) ''define''"
  shows "generateAnswer context query =
           ''Here'' @ [CHR 0x27] @ ''s a summary based on the document: '' @
           join ''. '' (take 3 (sentences_of context)) @ ''.'' \<and>
         generateAnswer context query \<noteq> definition_reply context"
proof -
  have "generateAnswer context query = summary_reply context"
    using assms(1) by (simp add: generateAnswer_def Let_def)
  then show ?thesis
    using summary_ne_definition[of "context"] by (simp add: summary_reply_def)
qed

theorem summary_before_definition_witness:
  "includes_str (toLowerCase ''Can you summarize and define the key term?'') ''summar'' \<and>
   includes_str (toLowerCase ''Can you summarize and define the key term?'') ''define'' \<and>
   generateAnswer ''A. B'' ''Can you summarize and define the key term?'' =
     ''Here'' @ [CHR 0x27] @ ''s a summary based on the document: A.  B.''"
proof -
  have h1: "includes_str (toLowerCase ''Can you summarize and define the key term?'') ''summar''"
    by code_simp
  have h2: "includes_str (toLowerCase ''Can you summarize and define the key term?'') ''define''"
    by code_simp
  have r: "join ''. '' (take 3 (sentences_of ''A. B'')) = ''A.  B''" by code_simp
  from summary_before_definition[OF h1 h2, of "''A. B''"] r h1 h2 show ?thesis by simp
qed

text \<open>
  C7. The retriever's output is a function of the document and the query alone: it is
  the join of the ranked sentences (or of the first five sentences when none is ranked).
  The ranked sentences are in descending order of score, and those of any one score are
  an initial part of the sentences of that score in document order, so sentences with
  equal scores keep their document order.
\<close>

theorem retrieval_stable_order:
  "extractRelevantContext doc query =
     (if ranked doc query = [] then join ''. '' (take 5 (sentences_of doc))
      else join ''. '' (map sentence (ranked doc query))) \<and>
   sorted_wrt (\<lambda>a b. score b \<le> score a) (ranked doc query) \<and>
   (\<forall>k. prefix (filter (\<lambda>s. score s = k) (ranked doc query))
                (filter (\<lambda>s. score s = k) (scoredSentences doc query)))"
  using ranked_sorted[of doc query] ranked_stable[of _ doc query]
  by (simp add: extractRelevantContext_def relevantSentences_def)

text \<open>
  C8. For the document \<^verbatim>\<open>Cats are mammals. Dogs are mammals too. Cats and dogs are
  common pets.\<close> and the query \<^verbatim>\<open>What is a cat?\<close> the retrieved context starts with
  \<^verbatim>\<open>Cats are mammals\<close>. (The token \<^verbatim>\<open>cat?\<close> matches no sentence; every sentence scores 1
  through the token \<^verbatim>\<open>a\<close>, and the tie keeps the document order.)
\<close>

theorem cats_context:
  "startsWith
     (extractRelevantContext
        ''Cats are mammals. Dogs are mammals too. Cats and dogs are common pets.''
        ''What is a cat?'')
     ''Cats are mammals'' \<and>
   extractRelevantContext
     ''Cats are mammals. Dogs are mammals too. Cats and dogs are common pets.''
     ''What is a cat?'' =
   ''Cats are mammals. Dogs are mammals too. Cats and dogs are common pets''"
  by code_simp

text \<open>
  C10. A run of two or more whitespace characters inside a query gives no empty token:
  \<^verbatim>\<open>/\s+/\<close> matches the whole run. For the query \<^verbatim>\<open>x  y\<close> the tokens are \<^verbatim>\<open>x\<close> and \<^verbatim>\<open>y\<close>,
  the sentences of \<^verbatim>\<open>Hello. World\<close> score 0 and the fallback branch is taken.
\<close>

theorem inner_whitespace_run_counterexample:
  "query_words ''x  y'' = [''x'', ''y''] \<and>
   map score (scoredSentences ''Hello. World'' ''x  y'') = [0, 0] \<and>
   relevantSentences ''Hello. World'' ''x  y'' = [] \<and>
   extractRelevantContext ''Hello. World'' ''x  y'' =
     join ''. '' (take 5 (sentences_of ''Hello. World''))"
  by code_simp

text \<open>
  C10, as the code has it. For a query that begins or ends with whitespace the split
  yields an empty token, every sentence of every document scores at least 1, and for a
  document with at least one sentence the fallback branch is not taken: the result is
  the join of the ranked sentences.
\<close>

theorem outer_whitespace_empty_token:
  assumes "query \<noteq> []" and "isWhiteSpace (hd query) \<or> isWhiteSpace (last query)"
  shows "[] \<in> set (query_words query) \<and>
         (\<forall>s\<in>set (scoredSentences doc query). 1 \<le> score s) \<and>
         (sentences_of doc \<noteq> [] \<longrightarrow>
            relevantSentences doc query \<noteq> [] \<and>
            extractRelevantContext doc query = join ''. '' (relevantSentences doc query))"
proof -
  have tok: "[] \<in> set (query_words query)" using assms by (rule query_words_empty_token)
  have sc: "\<forall>s\<in>set (scoredSentences doc query). 1 \<le> score s"
    using score_hit[OF tok includes_empty] by (auto simp: scoredSentences_def)
  have "relevantSentences doc query \<noteq> []" if "sentences_of doc \<noteq> []"
  proof -
    have "filter (\<lambda>s. 0 < score s) (scoredSentences doc query) = scoredSentences doc query"
      using sc by (auto simp: filter_id_conv)
    moreover have "scoredSentences doc query \<noteq> []"
      using that by (simp add: scoredSentences_def)
    ultimately have
      "sort_by by_score_desc (filter (\<lambda>s. 0 < score s) (scoredSentences doc query)) \<noteq> []"
      using sort_by_length[of by_score_desc "scoredSentences doc query"] by auto
    then show ?thesis by (simp add: relevantSentences_def ranked_def)
  qed
  then show ?thesis using tok sc by (simp add: extractRelevantContext_def)
qed

theorem outer_whitespace_empty_token_witness:
  "'' cat'' \<noteq> [] \<and> isWhiteSpace (hd '' cat'') \<and> sentences_of ''Hello. World'' \<noteq> [] \<and>
   [] \<in> set (query_words '' cat'') \<and>
   list_all (\<lambda>s. 1 \<le> score s) (scoredSentences ''Hello. World'' '' cat'') \<and>
   relevantSentences ''Hello. World'' '' cat'' \<noteq> [] \<and>
   extractRelevantContext ''Hello. World'' '' cat'' =
     join ''. '' (relevantSentences ''Hello. World'' '' cat'')"
proof -
  have h1: "'' cat'' \<noteq> []" by simp
  have h2: "isWhiteSpace (hd '' cat'')" by code_simp
  have h3: "sentences_of ''Hello. World'' \<noteq> []" by code_simp
  have h2': "isWhiteSpace (hd '' cat'') \<or> isWhiteSpace (last '' cat'')"
    using h2 by (rule disjI1)
  from outer_whitespace_empty_token[OF h1 h2', of "''Hello. World''"] h1 h2 h3
  show ?thesis by (simp add: list_all_iff)
qed

text \<open>
  C4. Entries of \<^verbatim>\<open>topWords\<close> with equal counts are not always in first-seen order:
  \<^verbatim>\<open>Object.entries\<close> lists the keys that are array indices first, in ascending numeric
  order. In \<^verbatim>\<open>9999 1000\<close> the token \<^verbatim>\<open>9999\<close> is seen first, both count 1, and
  \<^verbatim>\<open>topWords\<close> lists \<^verbatim>\<open>1000\<close> before \<^verbatim>\<open>9999\<close>.
\<close>

theorem topWords_order_counterexample:
  "tokens_of ''9999 1000'' = [''9999'', ''1000''] \<and>
   first_seen (tokens_of ''9999 1000'') = [''9999'', ''1000''] \<and>
   topWords (performDocumentAnalysis ''9999 1000'') = Sorted [(''1000'', Num 1), (''9999'', Num 1)]"
  by code_simp

text \<open>
  C4, as the code has it. For a text none of whose tokens is \<^verbatim>\<open>constructor\<close> (the one
  token that reads an inherited property of \<^verbatim>\<open>wordFreq\<close>), \<^verbatim>\<open>topWords\<close> has
  min(10, number of distinct tokens) entries, each with the number of occurrences of its
  token, in descending order of count; the entries of any one count follow the key order
  of the object: array-index tokens first in ascending numeric order, then the other
  tokens in first-seen order. When no token is an array index this is first-seen order.
\<close>

theorem topWords_order:
  assumes "''constructor'' \<notin> set (tokens_of text)"
  shows "\<exists>tw. topWords (performDocumentAnalysis text) = Sorted tw \<and>
           length tw = min 10 (card (set (tokens_of text))) \<and>
           (\<forall>e\<in>set tw. snd e = Num (count_list (tokens_of text) (fst e))) \<and>
           sorted_wrt (\<lambda>a b. count_list (tokens_of text) b \<le> count_list (tokens_of text) a)
             (map fst tw) \<and>
           (\<forall>k. prefix (filter (\<lambda>w. count_list (tokens_of text) w = k) (map fst tw))
                        (filter (\<lambda>w. count_list (tokens_of text) w = k)
                           (own_key_order id (first_seen (tokens_of text))))) \<and>
           ((\<forall>t\<in>set (tokens_of text). \<not> isArrayIndex t) \<longrightarrow>
              (\<forall>k. prefix (filter (\<lambda>w. count_list (tokens_of text) w = k) (map fst tw))
                           (filter (\<lambda>w. count_list (tokens_of text) w = k)
                              (first_seen (tokens_of text)))))"
proof -
  define ts where "ts = tokens_of text"
  define c where "c = count_list ts"
  define ks where "ks = own_key_order id (first_seen ts)"
  define top where "top = take 10 (sort_key (\<lambda>w. - int (c w)) ks)"
  define tw where "tw = map (\<lambda>w. (w, Num (c w))) top"
  have no: "''constructor'' \<notin> set (kept_tokens (words_of text))"
    using assms by (simp add: tokens_of_def)
  have res: "topWords (performDocumentAnalysis text) = Sorted tw"
    unfolding topWords_top_words top_words_explicit[OF no]
    by (simp add: tw_def top_def ks_def c_def ts_def tokens_of_def)
  have fst_tw: "map fst tw = top" by (simp add: tw_def comp_def)
  have len: "length tw = min 10 (card (set ts))"
    by (simp add: tw_def top_def ks_def length_own_key_order length_first_seen min.commute)
  have cnt: "\<forall>e\<in>set tw. snd e = Num (c (fst e))"
    by (auto simp: tw_def)
  have srt: "sorted_wrt (\<lambda>a b. c b \<le> c a) top"
    unfolding top_def by (rule sorted_wrt_take[OF sorted_desc_key])
  have stab: "prefix (filter (\<lambda>w. c w = k) top) (filter (\<lambda>w. c w = k) ks)" for k
    using prefix_filter_take[of "\<lambda>w. c w = k" 10 "sort_key (\<lambda>w. - int (c w)) ks"]
    by (simp only: top_def stable_desc_key)
  have plain: "ks = first_seen ts" if "\<forall>t\<in>set ts. \<not> isArrayIndex t"
    unfolding ks_def using that by (intro own_key_order_no_index) (simp add: set_first_seen)
  show ?thesis
  proof (intro exI[of _ tw] conjI)
    show "topWords (performDocumentAnalysis text) = Sorted tw" by (rule res)
    show "length tw = min 10 (card (set (tokens_of text)))" using len by (simp add: ts_def)
    show "\<forall>e\<in>set tw. snd e = Num (count_list (tokens_of text) (fst e))"
      using cnt by (simp add: c_def ts_def)
    show "sorted_wrt (\<lambda>a b. count_list (tokens_of text) b \<le> count_list (tokens_of text) a)
             (map fst tw)"
      using srt by (simp add: fst_tw c_def ts_def)
    show "\<forall>k. prefix (filter (\<lambda>w. count_list (tokens_of text) w = k) (map fst tw))
                        (filter (\<lambda>w. count_list (tokens_of text) w = k)
                           (own_key_order id (first_seen (tokens_of text))))"
      using stab by (simp add: fst_tw c_def ts_def ks_def)
    show "(\<forall>t\<in>set (tokens_of text). \<not> isArrayIndex t) \<longrightarrow>
              (\<forall>k. prefix (filter (\<lambda>w. count_list (tokens_of text) w = k) (map fst tw))
                           (filter (\<lambda>w. count_list (tokens_of text) w = k)
                              (first_seen (tokens_of text))))"
      using stab plain by (auto simp: fst_tw c_def ts_def)
  qed
qed

theorem topWords_order_witness:
  "''constructor'' \<notin> set (tokens_of ''Zebra, apple; zebra! 42 mango'') \<and>
   list_all (\<lambda>t. \<not> isArrayIndex t) (tokens_of ''Zebra, apple; zebra! 42 mango'') \<and>
   topWords (performDocumentAnalysis ''Zebra, apple; zebra! 42 mango'') =
     Sorted [(''zebra'', Num 2), (''apple'', Num 1), (''mango'', Num 1)] \<and>
   (\<exists>tw. topWords (performDocumentAnalysis ''Zebra, apple; zebra! 42 mango'') = Sorted tw \<and>
      length tw = 3 \<and>
      (\<forall>k. prefix (filter (\<lambda>w. count_list (tokens_of ''Zebra, apple; zebra! 42 mango'') w = k) (map fst tw))
                   (filter (\<lambda>w. count_list (tokens_of ''Zebra, apple; zebra! 42 mango'') w = k)
                      (first_seen (tokens_of ''Zebra, apple; zebra! 42 mango'')))))"
proof -
  let ?T = "''Zebra, apple; zebra! 42 mango''"
  have h: "''constructor'' \<notin> set (tokens_of ?T)" by code_simp
  have a: "list_all (\<lambda>t. \<not> isArrayIndex t) (tokens_of ?T)" by code_simp
  have v: "topWords (performDocumentAnalysis ?T) =
     Sorted [(''zebra'', Num 2), (''apple'', Num 1), (''mango'', Num 1)]" by code_simp
  have n: "min 10 (card (set (tokens_of ?T))) = 3" by code_simp
  have a': "\<forall>t\<in>set (tokens_of ?T). \<not> isArrayIndex t"
    using a by (simp add: list_all_iff)
  from topWords_order[OF h] obtain tw where
    r: "topWords (performDocumentAnalysis ?T) = Sorted tw" and
    l: "length tw = min 10 (card (set (tokens_of ?T)))" and
    s: "(\<forall>t\<in>set (tokens_of ?T). \<not> isArrayIndex t) \<longrightarrow>
        (\<forall>k. prefix (filter (\<lambda>w. count_list (tokens_of ?T) w = k) (map fst tw))
                     (filter (\<lambda>w. count_list (tokens_of ?T) w = k) (first_seen (tokens_of ?T))))"
    by blast
  from s a' have p: "\<forall>k. prefix (filter (\<lambda>w. count_list (tokens_of ?T) w = k) (map fst tw))
                     (filter (\<lambda>w. count_list (tokens_of ?T) w = k) (first_seen (tokens_of ?T)))"
    by (rule mp)
  from l n have l3: "length tw = 3" by (simp only:)
  from r l3 p have e: "\<exists>tw. topWords (performDocumentAnalysis ?T) = Sorted tw \<and>
      length tw = 3 \<and>
      (\<forall>k. prefix (filter (\<lambda>w. count_list (tokens_of ?T) w = k) (map fst tw))
                   (filter (\<lambda>w. count_list (tokens_of ?T) w = k) (first_seen (tokens_of ?T))))"
    by blast
  from h a v e show ?thesis by blast
qed

text \<open>
  C9. A document that contains the sentence \<^verbatim>\<open>There are 42 employees in 3 departments.\<close>
  need not give an answer that lists 42 and 3: only five sentences are retrieved and only
  the first five numbers of the context are listed. Here an earlier sentence with the
  same score holds five numbers, and the answer does not contain \<^verbatim>\<open>42\<close> at all.
\<close>

theorem employees_numbers_counterexample:
  "includes_str
     ''In 2020 there were 10 employees, in 2021 there were 20 employees, and in 2022 there are 30 employees. There are 42 employees in 3 departments.''
     ''There are 42 employees in 3 departments.'' \<and>
   generateAnswer
     (extractRelevantContext
        ''In 2020 there were 10 employees, in 2021 there were 20 employees, and in 2022 there are 30 employees. There are 42 employees in 3 departments.''
        ''How many employees are there? Count them.'')
     ''How many employees are there? Count them.'' =
   ''Based on the document, I found the following numbers: 2020, 10, 2021, 20, 2022. In 2020 there were 10 employees, in 2021 there were 20 employees, and in 2022 there are 30 employees.'' \<and>
   \<not> includes_str
     (generateAnswer
        (extractRelevantContext
           ''In 2020 there were 10 employees, in 2021 there were 20 employees, and in 2022 there are 30 employees. There are 42 employees in 3 departments.''
           ''How many employees are there? Count them.'')
        ''How many employees are there? Count them.'')
     ''42''"
  by code_simp

text \<open>
  C9, as the code has it. For the query \<^verbatim>\<open>How many employees are there? Count them.\<close>
  and a document that has the sentence \<^verbatim>\<open>There are 42 employees in 3 departments\<close> and
  no other sentence containing a token of the query, the answer is
  \<^verbatim>\<open>Based on the document, I found the following numbers: \<close>, a list of numbers that
  includes 42 and 3, and \<^verbatim>\<open>. There are 42 employees in 3 departments.\<close>
\<close>

theorem employees_numbers_listed:
  assumes "\<exists>s\<in>set (sentences_of doc). trim s = employees_sentence"
    and "\<forall>s\<in>set (sentences_of doc). trim s \<noteq> employees_sentence \<longrightarrow>
           (\<forall>w\<in>set (query_words employees_query). \<not> includes_str (toLowerCase s) w)"
  shows "\<exists>listed.
           generateAnswer (extractRelevantContext doc employees_query) employees_query =
             employees_answer listed \<and>
           ''42'' \<in> set listed \<and> ''3'' \<in> set listed"
proof -
  from employees_context[OF assms] obtain m where
    m: "1 \<le> m" "m \<le> 5" and
    c: "extractRelevantContext doc employees_query = join ''. '' (replicate m employees_sentence)"
    by blast
  from m have "m = 1 \<or> m = 2 \<or> m = 3 \<or> m = 4 \<or> m = 5" by arith
  then consider "m = 1" | "m = 2" | "m = 3" | "m = 4" | "m = 5" by blast
  then show ?thesis
  proof cases
    case 1
    then have "generateAnswer (extractRelevantContext doc employees_query) employees_query =
        employees_answer [''42'', ''3'']"
      using c employees_answers(1) by simp
    then show ?thesis by (intro exI[of _ "[''42'', ''3'']"]) simp
  next
    case 2
    then have "generateAnswer (extractRelevantContext doc employees_query) employees_query =
        employees_answer [''42'', ''3'', ''42'', ''3'']"
      using c employees_answers(2) by simp
    then show ?thesis by (intro exI[of _ "[''42'', ''3'', ''42'', ''3'']"]) simp
  next
    case 3
    then have "generateAnswer (extractRelevantContext doc employees_query) employees_query =
        employees_answer [''42'', ''3'', ''42'', ''3'', ''42'']"
      using c employees_answers(3) by simp
    then show ?thesis by (intro exI[of _ "[''42'', ''3'', ''42'', ''3'', ''42'']"]) simp
  next
    case 4
    then have "generateAnswer (extractRelevantContext doc employees_query) employees_query =
        employees_answer [''42'', ''3'', ''42'', ''3'', ''42'']"
      using c employees_answers(4) by simp
    then show ?thesis by (intro exI[of _ "[''42'', ''3'', ''42'', ''3'', ''42'']"]) simp
  next
    case 5
    then have "generateAnswer (extractRelevantContext doc employees_query) employees_query =
        employees_answer [''42'', ''3'', ''42'', ''3'', ''42'']"
      using c employees_answers(5) by simp
    then show ?thesis by (intro exI[of _ "[''42'', ''3'', ''42'', ''3'', ''42'']"]) simp
  qed
qed

theorem employees_numbers_listed_witness:
  "generateAnswer
     (extractRelevantContext ''Welcome. There are 42 employees in 3 departments. Goodbye!''
        employees_query)
     employees_query =
   ''Based on the document, I found the following numbers: 42, 3. There are 42 employees in 3 departments.'' \<and>
   (\<exists>listed.
      generateAnswer
        (extractRelevantContext ''Welcome. There are 42 employees in 3 departments. Goodbye!''
           employees_query)
        employees_query = employees_answer listed \<and>
      ''42'' \<in> set listed \<and> ''3'' \<in> set listed)"
proof -
  let ?D = "''Welcome. There are 42 employees in 3 departments. Goodbye!''"
  have h1: "\<exists>s\<in>set (sentences_of ?D). trim s = employees_sentence"
    by code_simp
  have h2: "\<forall>s\<in>set (sentences_of ?D). trim s \<noteq> employees_sentence \<longrightarrow>
           (\<forall>w\<in>set (query_words employees_query). \<not> includes_str (toLowerCase s) w)"
    by code_simp
  have v: "generateAnswer (extractRelevantContext ?D employees_query) employees_query =
     ''Based on the document, I found the following numbers: 42, 3. There are 42 employees in 3 departments.''"
    by code_simp
  from v employees_numbers_listed[OF h1 h2] show ?thesis by (rule conjI)
qed

end
